theory Spec2Isabelle
  imports Main "HOL-Library.Sublist"
begin

section \<open>The game record\<close>

text \<open>
  \<^verbatim>\<open>st.session_state.game\<close> of \<^verbatim>\<open>hangman.py\<close> is a dictionary with seven fixed keys; it is
  modelled as a record with the same field names. Python's \<^verbatim>\<open>str\<close> is \<^typ>\<open>string\<close>, its
  unbounded \<^verbatim>\<open>int\<close> is \<^typ>\<open>int\<close>. A guess is any \<^verbatim>\<open>str\<close> (the source does not restrict it to
  one character), so \<open>guessed_letters\<close> is a list of strings. Texts are taken over the code
  points below 256, where one character of a Python string is one \<^typ>\<open>char\<close>.
\<close>

record game =
  word :: string
  guessed_letters :: "string list"
  attempts :: int
  score :: int
  game_over :: bool
  hint_used :: bool
  fun_fact :: string

text \<open>The state installed by lines 18--30 when the session has no game yet.\<close>

definition initial_game :: game where
  "initial_game =
     \<lparr>word = '''', guessed_letters = [], attempts = 6, score = 0,
      game_over = False, hint_used = False, fun_fact = ''''\<rparr>"

section \<open>Guessing a letter\<close>

text \<open>
  \<^verbatim>\<open>all(c in game['guessed_letters'] for c in game['word'])\<close>: \<open>c\<close> ranges over the
  characters of the word, each a one-character string, and is looked up in the list.
\<close>

definition all_guessed :: "game \<Rightarrow> bool" where
  "all_guessed g = list_all (\<lambda>c. [c] \<in> set (guessed_letters g)) (word g)"

text \<open>
  \<^verbatim>\<open>check_guess\<close>, lines 91--102. \<^verbatim>\<open>letter not in game['guessed_letters']\<close> is list
  membership; \<^verbatim>\<open>letter not in game['word']\<close> is Python's substring test on strings, which
  is \<^const>\<open>sublist\<close>. The function has no test of \<open>game_over\<close> before it mutates.
\<close>

definition check_guess :: "string \<Rightarrow> game \<Rightarrow> game" where
  "check_guess letter game0 =
     (let game1 =
        (if letter \<notin> set (guessed_letters game0)
         then (let g = game0\<lparr>guessed_letters := guessed_letters game0 @ [letter]\<rparr>
               in if \<not> sublist letter (word g) then g\<lparr>attempts := attempts g - 1\<rparr> else g)
         else game0)
      in if attempts game1 \<le> 0 \<or> all_guessed game1
         then (let game2 = game1\<lparr>game_over := True\<rparr>
               in if attempts game2 > 0
                  then game2\<lparr>score := attempts game2 * 10 + (if \<not> hint_used game2 then 5 else 0)\<rparr>
                  else game2)
         else game1)"

section \<open>External services and what the user sees\<close>

text \<open>
  An exception caught by \<^verbatim>\<open>except Exception as e\<close> is carried with its text \<^verbatim>\<open>str(e)\<close>.
  What a handler does besides changing the game is kept as a list of events, in the
  order of execution: a chat-completion request, \<^verbatim>\<open>st.error\<close>, \<^verbatim>\<open>st.info\<close>,
  \<^verbatim>\<open>st.warning\<close> and \<^verbatim>\<open>time.sleep\<close> with its number of seconds.
\<close>

datatype exc = Exception string

datatype event =
    Request string
  | StError string
  | StInfo string
  | StWarning string
  | Sleep nat

text \<open>
  The chat-completion service is outside the program. \<open>create p k\<close> is the outcome of the
  \<open>k\<close>-th request (counted from 0) that one call of \<^verbatim>\<open>get_ai_content\<close> makes for the
  prompt \<open>p\<close>: the evaluation of the \<^verbatim>\<open>try\<close> body up to \<^verbatim>\<open>.message.content\<close> either
  raises or yields the text. \<open>cached\<close> is the entry that the decorator
  \<^verbatim>\<open>@st.cache_data(ttl=300)\<close> holds for the arguments at the time of the call, if any;
  expiry is the framework's matter, so the entry is an input.
\<close>

record ai_service =
  cached :: "string \<times> int \<Rightarrow> string option"
  create :: "string \<Rightarrow> nat \<Rightarrow> exc + string"

text \<open>
  \<^verbatim>\<open>str.strip()\<close> removes leading and trailing whitespace; among the code points
  below 256, Python's whitespace is the blank, the characters 9 to 13 and 28 to 31, and
  the characters 133 and 160.
\<close>

definition is_space :: "char \<Rightarrow> bool" where
  "is_space c =
     (c \<in> set [CHR '' '', CHR 0x09, CHR 0x0A, CHR 0x0B, CHR 0x0C, CHR 0x0D,
                CHR 0x1C, CHR 0x1D, CHR 0x1E, CHR 0x1F, CHR 0x85, CHR 0xA0])"

definition strip :: "string \<Rightarrow> string" where
  "strip s = rev (dropWhile is_space (rev (dropWhile is_space s)))"

definition fallback :: string where
  "fallback = ''Temporary hint unavailable. Try guessing letters!''"

text \<open>
  The loop \<^verbatim>\<open>for _ in range(max_retries)\<close> of \<^verbatim>\<open>get_ai_content\<close> (lines 35--46, and
  again lines 200--210 with the newer client: the two bodies differ only in how the
  request is written). The third argument counts the iterations left, the fourth is
  the index of the current one. A successful request returns from inside the loop; a
  failed one is reported, followed by \<^verbatim>\<open>time.sleep(2)\<close>, and the loop goes on. When the
  range is used up the function returns the fixed text.
\<close>

fun retry_loop :: "(nat \<Rightarrow> exc + string) \<Rightarrow> string \<Rightarrow> nat \<Rightarrow> nat \<Rightarrow> string \<times> event list" where
  "retry_loop api prompt 0 k = (fallback, [])"
| "retry_loop api prompt (Suc n) k =
     (case api k of
        Inr content \<Rightarrow> (strip content, [Request prompt])
      | Inl (Exception msg) \<Rightarrow>
          (let (r, evs) = retry_loop api prompt n (Suc k)
           in (r, [Request prompt, StError (''AI service error: '' @ msg), Sleep 2] @ evs)))"

text \<open>
  \<^verbatim>\<open>get_ai_content(prompt, max_retries=3)\<close>: with a live cache entry the body does not
  run; otherwise \<^verbatim>\<open>range(max_retries)\<close> has \<open>nat max_retries\<close> elements (none when
  \<open>max_retries\<close> is negative).
\<close>

definition get_ai_content :: "ai_service \<Rightarrow> string \<Rightarrow> int \<Rightarrow> string \<times> event list" where
  "get_ai_content svc prompt max_retries =
     (case cached svc (prompt, max_retries) of
        Some r \<Rightarrow> (r, [])
      | None \<Rightarrow> retry_loop (create svc prompt) prompt (nat max_retries) 0)"

definition get_ai_hint :: "ai_service \<Rightarrow> game \<Rightarrow> string \<times> event list" where
  "get_ai_hint svc g =
     get_ai_content svc
       (''Give a subtle hint about '' @ word g @ '' without revealing it. Max 10 words.'') 3"

definition get_fun_fact :: "ai_service \<Rightarrow> game \<Rightarrow> string \<times> event list" where
  "get_fun_fact svc g =
     get_ai_content svc
       (''Tell an interesting fact about '' @ word g @ '' in 15 words or less.'') 3"

section \<open>Starting a round and buying a hint\<close>

text \<open>
  \<^verbatim>\<open>new_game\<close>, lines 79--89. \<^verbatim>\<open>get_ai_word\<close> is not part of the file; its result is the
  argument \<open>w\<close>. The dictionary display is evaluated before it is stored, so
  \<^verbatim>\<open>get_fun_fact()\<close> still reads the game that is being replaced.
\<close>

definition new_game :: "ai_service \<Rightarrow> string \<Rightarrow> game \<Rightarrow> game \<times> event list" where
  "new_game svc w g =
     (let (fact, evs) = get_fun_fact svc g
      in (\<lparr>word = w, guessed_letters = [], attempts = 6, score = 0,
           game_over = False, hint_used = False, fun_fact = fact\<rparr>, evs))"

text \<open>
  \<^verbatim>\<open>show_hint_section\<close>, lines 130--138. The button exists only while the round is
  running and no hint was bought; \<open>clicked\<close> is what \<^verbatim>\<open>st.button\<close> returns. The two
  assignments happen before the hint text is requested.
\<close>

definition show_hint_section :: "ai_service \<Rightarrow> bool \<Rightarrow> game \<Rightarrow> game \<times> event list" where
  "show_hint_section svc clicked g =
     (if \<not> game_over g \<and> \<not> hint_used g
      then (if clicked
            then (if attempts g > 2
                  then (let g1 = g\<lparr>attempts := attempts g - 2\<rparr>;
                            g2 = g1\<lparr>hint_used := True\<rparr>;
                            (hint, evs) = get_ai_hint svc g2
                        in (g2, evs @ [StInfo (''Hint: '' @ hint)]))
                  else (g, [StWarning ''Not enough attempts for a hint!'']))
            else (g, []))
      else (g, []))"

text \<open>
  Reading a list of events: the number of chat-completion requests in it, and the three
  events that one failed iteration of the retry loop leaves (the request, the error
  shown, the pause of two seconds).
\<close>

fun is_request :: "event \<Rightarrow> bool" where
  "is_request (Request p) = True"
| "is_request _ = False"

definition requests :: "event list \<Rightarrow> nat" where
  "requests evs = length (filter is_request evs)"

definition failed_attempt :: "string \<Rightarrow> string \<Rightarrow> event list" where
  "failed_attempt prompt msg = [Request prompt, StError (''AI service error: '' @ msg), Sleep 2]"

section \<open>The leaderboard read\<close>

text \<open>
  A stored score is a Firestore document, read as a dictionary. The store is outside
  the program: \<open>stream n\<close> is the outcome of running the query ordered by score,
  descending, limited to \<open>n\<close>, and converting every document with \<^verbatim>\<open>to_dict\<close>: it raises
  or yields the dictionaries. \<open>lb_cached\<close> is the entry of \<^verbatim>\<open>@st.cache_data(ttl=60)\<close>.
\<close>

datatype field = Text string | Number int | Timestamp nat

type_synonym document = "(string \<times> field) list"

record score_store =
  lb_cached :: "int \<Rightarrow> document list option"
  stream :: "int \<Rightarrow> exc + document list"

text \<open>\<^verbatim>\<open>get_leaderboard(limit=10)\<close>, lines 57--64.\<close>

definition get_leaderboard :: "score_store \<Rightarrow> int \<Rightarrow> document list \<times> event list" where
  "get_leaderboard store limit =
     (case lb_cached store limit of
        Some r \<Rightarrow> (r, [])
      | None \<Rightarrow>
          (case stream store limit of
             Inr docs \<Rightarrow> (docs, [])
           | Inl (Exception msg) \<Rightarrow> ([], [StError (''Leaderboard error: '' @ msg)])))"

section \<open>Sessions\<close>

text \<open>
  The handlers run one after the other on the single game of the session. Within a
  round the game is changed by guesses and by the hint section; \<^verbatim>\<open>new_game\<close> replaces it.
  A session is a list of such actions, run from left to right.
\<close>

datatype round_action = Guess string | HintSection ai_service bool

datatype action = NewGame ai_service string | InRound round_action

fun round_step :: "round_action \<Rightarrow> game \<Rightarrow> game" where
  "round_step (Guess letter) g = check_guess letter g"
| "round_step (HintSection svc clicked) g = fst (show_hint_section svc clicked g)"

fun step :: "action \<Rightarrow> game \<Rightarrow> game" where
  "step (NewGame svc w) g = fst (new_game svc w g)"
| "step (InRound a) g = round_step a g"

fun run_round :: "round_action list \<Rightarrow> game \<Rightarrow> game" where
  "run_round [] g = g"
| "run_round (a # as) g = run_round as (round_step a g)"

fun run :: "action list \<Rightarrow> game \<Rightarrow> game" where
  "run [] g = g"
| "run (a # as) g = run as (step a g)"

section \<open>What holds of every game of a session\<close>

text \<open>
  A round that is running has score 0 and attempts left, and if its word is already
  complete (an empty word, before the first guess) it has 6 attempts and no hint, or 4
  and a hint. A round that is over has met one of the two end conditions, and while
  attempts are left its score is the one the win formula gives.
\<close>

definition consistent :: "game \<Rightarrow> bool" where
  "consistent g =
     (if game_over g
      then (attempts g \<le> 0 \<or> all_guessed g) \<and>
           (0 < attempts g \<longrightarrow> score g = attempts g * 10 + (if hint_used g then 0 else 5))
      else score g = 0 \<and> 0 < attempts g \<and>
           (all_guessed g \<longrightarrow> (attempts g = 6 \<and> \<not> hint_used g) \<or> (attempts g = 4 \<and> hint_used g)))"

section \<open>Theorems\<close>

subsection \<open>Auxiliary facts\<close>

lemma check_guess_frame:
  "word (check_guess letter g) = word g"
  "hint_used (check_guess letter g) = hint_used g"
  "fun_fact (check_guess letter g) = fun_fact g"
  by (simp_all add: check_guess_def Let_def)

lemma check_guess_attempts_le: "attempts (check_guess letter g) \<le> attempts g"
  by (simp add: check_guess_def Let_def)

lemma check_guess_game_over:
  "game_over (check_guess letter g) =
     (game_over g \<or> attempts (check_guess letter g) \<le> 0 \<or> all_guessed (check_guess letter g))"
  by (auto simp add: check_guess_def Let_def all_guessed_def)

lemma sublist_single: "sublist [c] w \<longleftrightarrow> c \<in> set w"
  by (auto simp: sublist_def in_set_conv_decomp)

lemma all_guessed_check_guess:
  "all_guessed g \<Longrightarrow> all_guessed (check_guess letter g)"
  by (auto simp add: check_guess_def Let_def all_guessed_def list_all_iff)

lemma consistent_initial: "consistent initial_game"
  by (simp add: consistent_def initial_game_def all_guessed_def)

lemma consistent_new_game: "consistent (fst (new_game svc w g))"
  by (simp add: consistent_def new_game_def all_guessed_def split: prod.splits)

lemma consistent_hint: "consistent g \<Longrightarrow> consistent (fst (show_hint_section svc b g))"
  by (auto simp add: consistent_def show_hint_section_def all_guessed_def Let_def split: prod.splits if_splits)

lemma wrong_guess_completes_nothing:
  "\<not> sublist letter (word g) \<Longrightarrow>
   all_guessed (g\<lparr>guessed_letters := guessed_letters g @ [letter]\<rparr>) = all_guessed g"
  by (auto simp add: all_guessed_def list_all_iff sublist_single)

lemma all_guessed_frame:
  "all_guessed (g\<lparr>attempts := a\<rparr>) = all_guessed g"
  "all_guessed (g\<lparr>score := s\<rparr>) = all_guessed g"
  "all_guessed (g\<lparr>game_over := b\<rparr>) = all_guessed g"
  "all_guessed (g\<lparr>hint_used := b\<rparr>) = all_guessed g"
  by (simp_all add: all_guessed_def)

lemma consistent_check_guess:
  assumes "consistent g"
  shows "consistent (check_guess letter g)"
proof (cases "letter \<in> set (guessed_letters g)")
  case True
  with assms show ?thesis
    by (auto simp add: consistent_def check_guess_def Let_def all_guessed_def split: if_splits)
next
  case new: False
  show ?thesis
  proof (cases "sublist letter (word g)")
    case True
    with new assms show ?thesis
      by (auto simp add: consistent_def check_guess_def Let_def all_guessed_def list_all_iff
          split: if_splits)
  next
    case False
    with new assms wrong_guess_completes_nothing [OF False] show ?thesis
      by (auto simp add: consistent_def check_guess_def Let_def all_guessed_frame
          split: if_splits)
  qed
qed

lemma consistent_run: "consistent g \<Longrightarrow> consistent (run acts g)"
proof (induction acts arbitrary: g)
  case Nil
  then show ?case by simp
next
  case (Cons a acts)
  have "consistent (step a g)"
  proof (cases a)
    case (NewGame svc w)
    then show ?thesis by (simp add: consistent_new_game)
  next
    case (InRound r)
    with Cons.prems show ?thesis
      by (cases r) (simp_all add: consistent_check_guess consistent_hint)
  qed
  then show ?case by (simp add: Cons.IH)
qed


lemma consistent_session: "consistent (run acts initial_game)"
  by (simp add: consistent_run consistent_initial)

lemma check_guess_lost_score:
  "attempts (check_guess letter g) \<le> 0 \<Longrightarrow> score (check_guess letter g) = score g"
  by (auto simp add: check_guess_def Let_def split: if_splits)

lemma check_guess_won_score:
  "0 < attempts (check_guess letter g) \<Longrightarrow> all_guessed (check_guess letter g) \<Longrightarrow>
   score (check_guess letter g) =
     attempts (check_guess letter g) * 10 + (if hint_used (check_guess letter g) then 0 else 5)"
  by (auto simp add: check_guess_def Let_def all_guessed_frame split: if_splits)

lemma running_round_win_has_attempts:
  assumes "consistent g" "\<not> game_over g" "all_guessed (check_guess letter g)"
  shows "0 < attempts (check_guess letter g)"
proof (cases "letter \<notin> set (guessed_letters g) \<and> \<not> sublist letter (word g)")
  case True
  then have "all_guessed g"
    using assms(3) wrong_guess_completes_nothing [of letter g]
    by (auto simp add: check_guess_def Let_def all_guessed_frame split: if_splits)
  with assms(1,2) have "4 \<le> attempts g"
    by (auto simp add: consistent_def)
  moreover from True have "attempts (check_guess letter g) = attempts g - 1"
    by (auto simp add: check_guess_def Let_def)
  ultimately show ?thesis by simp
next
  case False
  then have "attempts (check_guess letter g) = attempts g"
    by (auto simp add: check_guess_def Let_def)
  with assms(1,2) show ?thesis
    by (simp add: consistent_def)
qed

lemma hint_section_game_over:
  "game_over (fst (show_hint_section svc clicked g)) = game_over g"
  by (simp add: show_hint_section_def Let_def split: prod.splits)

lemma new_game_fields:
  "word (fst (new_game svc w g)) = w"
  "guessed_letters (fst (new_game svc w g)) = []"
  "attempts (fst (new_game svc w g)) = 6"
  "score (fst (new_game svc w g)) = 0"
  "\<not> game_over (fst (new_game svc w g))"
  "\<not> hint_used (fst (new_game svc w g))"
  by (simp_all add: new_game_def split: prod.splits)

lemma check_guess_known_noop:
  assumes "consistent g" "game_over g" "letter \<in> set (guessed_letters g)"
  shows "check_guess letter g = g"
  using assms by (auto simp add: check_guess_def Let_def consistent_def split: if_splits)

lemma hint_used_round_step: "hint_used g \<Longrightarrow> hint_used (round_step a g)"
  by (cases a) (simp_all add: check_guess_frame show_hint_section_def)

lemma hint_used_run_round: "hint_used g \<Longrightarrow> hint_used (run_round as g)"
  by (induction as arbitrary: g) (simp_all add: hint_used_round_step)

lemma hint_section_attempts_le: "attempts (fst (show_hint_section svc clicked g)) \<le> attempts g"
  by (simp add: show_hint_section_def Let_def split: prod.splits)

lemma round_step_attempts_le: "attempts (round_step a g) \<le> attempts g"
  by (cases a) (simp_all add: check_guess_attempts_le hint_section_attempts_le)

lemma run_round_attempts_le: "attempts (run_round as g) \<le> attempts g"
proof (induction as arbitrary: g)
  case Nil
  show ?case by simp
next
  case (Cons a as)
  have "attempts (run_round as (round_step a g)) \<le> attempts (round_step a g)"
    by (rule Cons.IH)
  also have "\<dots> \<le> attempts g"
    by (rule round_step_attempts_le)
  finally show ?case by simp
qed

lemma run_round_append: "run_round (as @ bs) g = run_round bs (run_round as g)"
  by (induction as arbitrary: g) simp_all

lemma distinct_check_guess:
  "distinct (guessed_letters g) \<Longrightarrow> distinct (guessed_letters (check_guess letter g))"
  by (simp add: check_guess_def Let_def)

lemma hint_section_guessed:
  "guessed_letters (fst (show_hint_section svc clicked g)) = guessed_letters g"
  by (simp add: show_hint_section_def Let_def split: prod.splits)

lemma distinct_step: "distinct (guessed_letters g) \<Longrightarrow> distinct (guessed_letters (step a g))"
proof (cases a)
  case (NewGame svc w)
  then show ?thesis by (simp add: new_game_def split: prod.splits)
next
  case (InRound r)
  assume "distinct (guessed_letters g)"
  with InRound show ?thesis
    by (cases r) (simp_all add: distinct_check_guess hint_section_guessed)
qed

lemma retry_loop_requests: "requests (snd (retry_loop api prompt n k)) \<le> n"
proof (induction n arbitrary: k)
  case 0
  show ?case by (simp add: requests_def)
next
  case (Suc n)
  show ?case
  proof (cases "api k")
    case (Inr content)
    then show ?thesis by (simp add: requests_def)
  next
    case (Inl e)
    obtain msg where e: "e = Exception msg" by (cases e)
    obtain r evs where rec: "retry_loop api prompt n (Suc k) = (r, evs)"
      by (cases "retry_loop api prompt n (Suc k)")
    from Suc.IH [of "Suc k"] rec have "requests evs \<le> n" by simp
    with Inl e rec show ?thesis by (simp add: requests_def)
  qed
qed

lemma retry_loop_exhausted:
  "(\<forall>j<n. api (k + j) = Inl (Exception (msg (k + j)))) \<Longrightarrow>
   retry_loop api prompt n k =
     (fallback, concat (map (\<lambda>j. failed_attempt prompt (msg j)) [k..<k + n]))"
proof (induction n arbitrary: k)
  case 0
  show ?case by simp
next
  case (Suc n)
  from Suc.prems have here: "api k = Inl (Exception (msg k))"
    using Suc.prems [rule_format, of 0] by simp
  have "\<forall>j<n. api (Suc k + j) = Inl (Exception (msg (Suc k + j)))"
    using Suc.prems by (metis Suc_less_eq add_Suc_shift)
  then have "retry_loop api prompt n (Suc k) =
     (fallback, concat (map (\<lambda>j. failed_attempt prompt (msg j)) [Suc k..<Suc k + n]))"
    by (rule Suc.IH)
  moreover have "[k..<Suc (k + n)] = k # [Suc k..<Suc (k + n)]"
    by (rule upt_conv_Cons) simp
  ultimately show ?case
    using here by (simp add: failed_attempt_def del: upt_Suc)
qed

lemma retry_loop_success:
  "i < n \<Longrightarrow> (\<forall>j<i. api (k + j) = Inl (Exception (msg (k + j)))) \<Longrightarrow>
   api (k + i) = Inr content \<Longrightarrow>
   retry_loop api prompt n k =
     (strip content,
      concat (map (\<lambda>j. failed_attempt prompt (msg j)) [k..<k + i]) @ [Request prompt])"
proof (induction n arbitrary: k i)
  case 0
  then show ?case by simp
next
  case (Suc n)
  show ?case
  proof (cases i)
    case 0
    with Suc.prems show ?thesis by simp
  next
    case (Suc i')
    from Suc.prems(2) Suc have here: "api k = Inl (Exception (msg k))"
      using Suc.prems(2) [rule_format, of 0] by simp
    have "i' < n" using Suc.prems(1) Suc by simp
    moreover have "\<forall>j<i'. api (Suc k + j) = Inl (Exception (msg (Suc k + j)))"
      using Suc.prems(2) Suc by (metis Suc_less_eq add_Suc_shift)
    moreover have "api (Suc k + i') = Inr content"
      using Suc.prems(3) Suc by simp
    ultimately have "retry_loop api prompt n (Suc k) =
     (strip content,
      concat (map (\<lambda>j. failed_attempt prompt (msg j)) [Suc k..<Suc k + i']) @ [Request prompt])"
      by (rule Suc.IH)
    moreover have "[k..<Suc (k + i')] = k # [Suc k..<Suc (k + i')]"
      by (rule upt_conv_Cons) simp
    ultimately show ?thesis
      using here Suc by (simp add: failed_attempt_def del: upt_Suc)
  qed
qed

lemma get_ai_content_requests: "requests (snd (get_ai_content svc prompt m)) \<le> nat m"
proof (cases "cached svc (prompt, m)")
  case None
  then show ?thesis by (simp add: get_ai_content_def retry_loop_requests)
next
  case (Some r)
  then show ?thesis by (simp add: get_ai_content_def requests_def)
qed

lemma check_guess_score:
  "score (check_guess letter g) =
     (if 0 < attempts (check_guess letter g) \<and> all_guessed (check_guess letter g)
      then attempts (check_guess letter g) * 10 + (if hint_used (check_guess letter g) then 0 else 5)
      else score g)"
  by (auto simp add: check_guess_def Let_def all_guessed_frame split: if_splits)

lemma check_guess_guessed_letters:
  "guessed_letters (check_guess letter g) =
     (if letter \<in> set (guessed_letters g) then guessed_letters g
      else guessed_letters g @ [letter])"
  by (simp add: check_guess_def Let_def)

lemma check_guess_attempts:
  "attempts (check_guess letter g) =
     (if letter \<notin> set (guessed_letters g) \<and> \<not> sublist letter (word g)
      then attempts g - 1 else attempts g)"
  by (simp add: check_guess_def Let_def)



lemmas game_eval =
  check_guess_def all_guessed_def new_game_def show_hint_section_def get_fun_fact_def
  get_ai_hint_def get_ai_content_def initial_game_def Let_def sublist_Cons_right
  fallback_def strip_def is_space_def numeral_3_eq_3

subsection \<open>Scoring at the end of a round\<close>

text \<open>
  C1. A round ends when a call of \<open>check_guess\<close> on a running game of a session sets
  \<open>game_over\<close>. Then the word is complete exactly when attempts are left (the round is
  won); the score of a won round is \<open>attempts * 10\<close>, plus 5 when no hint was used; the
  score of a lost round is 0.
\<close>

theorem round_end_score:
  assumes "g = run acts initial_game" and "g' = check_guess letter g"
    and "\<not> game_over g" and "game_over g'"
  shows "(all_guessed g' \<longleftrightarrow> 0 < attempts g') \<and>
         (all_guessed g' \<longrightarrow> score g' = attempts g' * 10 + (if hint_used g' then 0 else 5)) \<and>
         (\<not> all_guessed g' \<longrightarrow> score g' = 0)"
proof -
  have inv: "consistent g"
    using assms(1) by (simp add: consistent_session)
  have ended: "attempts g' \<le> 0 \<or> all_guessed g'"
    using assms(2,3,4) check_guess_game_over [of letter g] by simp
  have win: "all_guessed g' \<Longrightarrow> 0 < attempts g'"
    using running_round_win_has_attempts [OF inv assms(3)] assms(2) by simp
  have zero: "score g = 0"
    using inv assms(3) by (simp add: consistent_def)
  show ?thesis
  proof (cases "all_guessed g'")
    case True
    with win check_guess_won_score [of letter g] assms(2) show ?thesis by simp
  next
    case False
    with ended have "attempts g' \<le> 0" by simp
    with False check_guess_lost_score [of letter g] assms(2) zero show ?thesis by simp
  qed
qed

theorem round_end_score_witness:
  "(let g = run [NewGame \<lparr>cached = \<lambda>_. None, create = \<lambda>_ _. Inl (Exception ''offline'')\<rparr> ''PYTHON'',
                InRound (Guess ''P''), InRound (Guess ''Y''), InRound (Guess ''T''),
                InRound (Guess ''H''), InRound (Guess ''O'')] initial_game;
        g' = check_guess ''N'' g
    in \<not> game_over g \<and> game_over g' \<and> all_guessed g' \<and> attempts g' = 6 \<and> score g' = 65) \<and>
   (let g = run [NewGame \<lparr>cached = \<lambda>_. None, create = \<lambda>_ _. Inl (Exception ''offline'')\<rparr> ''CAT'',
                InRound (Guess ''X''), InRound (Guess ''Q''), InRound (Guess ''Z''),
                InRound (Guess ''J''), InRound (Guess ''W'')] initial_game;
        g' = check_guess ''V'' g
    in \<not> game_over g \<and> game_over g' \<and> \<not> all_guessed g' \<and> attempts g' = 0 \<and> score g' = 0)"
  using
    round_end_score [OF refl refl,
      of "[NewGame \<lparr>cached = \<lambda>_. None, create = \<lambda>_ _. Inl (Exception ''offline'')\<rparr> ''PYTHON'',
                InRound (Guess ''P''), InRound (Guess ''Y''), InRound (Guess ''T''),
                InRound (Guess ''H''), InRound (Guess ''O'')]" "''N''"]
    round_end_score [OF refl refl,
      of "[NewGame \<lparr>cached = \<lambda>_. None, create = \<lambda>_ _. Inl (Exception ''offline'')\<rparr> ''CAT'',
                InRound (Guess ''X''), InRound (Guess ''Q''), InRound (Guess ''Z''),
                InRound (Guess ''J''), InRound (Guess ''W'')]" "''V''"]
  by (simp add: game_eval)

subsection \<open>When a round is over\<close>

text \<open>
  C2. After every call of \<open>check_guess\<close> in a session, \<open>game_over\<close> is true if and only
  if no attempts are left or every character of the word is in \<open>guessed_letters\<close>. The
  other two operations do not set it: the hint section leaves \<open>game_over\<close> as it is, and
  \<open>new_game\<close> starts with \<open>game_over\<close> false.
\<close>

theorem game_over_iff_ended:
  "(game_over (check_guess letter (run acts initial_game)) \<longleftrightarrow>
      attempts (check_guess letter (run acts initial_game)) \<le> 0 \<or>
      all_guessed (check_guess letter (run acts initial_game))) \<and>
   game_over (fst (show_hint_section svc clicked g)) = game_over g \<and>
   game_over (fst (new_game svc' w g)) = False"
proof -
  have "consistent (check_guess letter (run acts initial_game))"
    by (simp add: consistent_check_guess consistent_session)
  then have "game_over (check_guess letter (run acts initial_game)) \<Longrightarrow>
      attempts (check_guess letter (run acts initial_game)) \<le> 0 \<or>
      all_guessed (check_guess letter (run acts initial_game))"
    by (simp add: consistent_def split: if_splits)
  moreover have "attempts (check_guess letter (run acts initial_game)) \<le> 0 \<or>
      all_guessed (check_guess letter (run acts initial_game)) \<Longrightarrow>
      game_over (check_guess letter (run acts initial_game))"
    using check_guess_game_over [of letter "run acts initial_game"] by blast
  ultimately show ?thesis
    using hint_section_game_over [of svc clicked g] new_game_fields(5) [of svc' w g]
    by blast
qed

subsection \<open>Both end conditions at once\<close>




subsection \<open>Guessing after the round is over\<close>

text \<open>
  C4, as the code has it. On a game that is over, \<open>check_guess\<close> never changes \<open>word\<close>,
  \<open>game_over\<close>, \<open>hint_used\<close> or \<open>fun_fact\<close>. A letter that was guessed before leaves
  \<open>guessed_letters\<close> and \<open>attempts\<close> alone, and on a game of a session the call then
  changes nothing at all. A letter that was not guessed before is appended to
  \<open>guessed_letters\<close>, and it costs one attempt when it is not in the word. In both cases
  the score becomes the win formula if afterwards attempts are left and the word is
  complete, and otherwise keeps its value.
\<close>

theorem guess_after_game_over:
  assumes "game_over g" and "g' = check_guess letter g"
  shows "word g' = word g \<and> game_over g' \<and> hint_used g' = hint_used g \<and>
         fun_fact g' = fun_fact g \<and>
         guessed_letters g' =
           (if letter \<in> set (guessed_letters g) then guessed_letters g
            else guessed_letters g @ [letter]) \<and>
         attempts g' =
           (if letter \<notin> set (guessed_letters g) \<and> \<not> sublist letter (word g)
            then attempts g - 1 else attempts g) \<and>
         score g' =
           (if 0 < attempts g' \<and> all_guessed g'
            then attempts g' * 10 + (if hint_used g' then 0 else 5)
            else score g) \<and>
         (letter \<in> set (guessed_letters g) \<and> g = run acts initial_game \<longrightarrow> g' = g)"
proof -
  have "game_over g'"
    using assms check_guess_game_over [of letter g] by simp
  moreover have "guessed_letters g' =
           (if letter \<in> set (guessed_letters g) then guessed_letters g
            else guessed_letters g @ [letter])"
    using assms(2) by (simp add: check_guess_guessed_letters)
  moreover have "attempts g' =
           (if letter \<notin> set (guessed_letters g) \<and> \<not> sublist letter (word g)
            then attempts g - 1 else attempts g)"
    using assms(2) check_guess_attempts [of letter g] by simp
  moreover have "score g' =
           (if 0 < attempts g' \<and> all_guessed g'
            then attempts g' * 10 + (if hint_used g' then 0 else 5)
            else score g)"
    using assms(2) check_guess_score [of letter g] by simp
  moreover have "letter \<in> set (guessed_letters g) \<and> g = run acts initial_game \<longrightarrow> g' = g"
    using assms check_guess_known_noop [of g letter] consistent_session [of acts] by blast
  moreover have "word g' = word g \<and> hint_used g' = hint_used g \<and> fun_fact g' = fun_fact g"
    using assms(2) by (simp add: check_guess_frame)
  ultimately show ?thesis by blast
qed

theorem guess_after_game_over_witness:
  "(let g = run [NewGame \<lparr>cached = \<lambda>_. Some ''fact'', create = \<lambda>_ _. Inr ''fact''\<rparr> ''A'',
                InRound (Guess ''A'')] initial_game
    in game_over g \<and> ''A'' \<in> set (guessed_letters g) \<and> check_guess ''A'' g = g \<and>
       ''Z'' \<notin> set (guessed_letters g) \<and> \<not> sublist ''Z'' (word g) \<and>
       guessed_letters (check_guess ''Z'' g) = [''A'', ''Z''] \<and>
       attempts g = 6 \<and> attempts (check_guess ''Z'' g) = 5 \<and>
       score g = 65 \<and> score (check_guess ''Z'' g) = 55)"
  using
    guess_after_game_over [OF _ refl,
      of "run [NewGame \<lparr>cached = \<lambda>_. Some ''fact'', create = \<lambda>_ _. Inr ''fact''\<rparr> ''A'',
                InRound (Guess ''A'')] initial_game" "''A''"
         "[NewGame \<lparr>cached = \<lambda>_. Some ''fact'', create = \<lambda>_ _. Inr ''fact''\<rparr> ''A'',
                InRound (Guess ''A'')]"]
    guess_after_game_over [OF _ refl,
      of "run [NewGame \<lparr>cached = \<lambda>_. Some ''fact'', create = \<lambda>_ _. Inr ''fact''\<rparr> ''A'',
                InRound (Guess ''A'')] initial_game" "''Z''" "[]"]
  by (simp add: game_eval)

text \<open>
  C4, as the specification states it, fails: \<open>check_guess\<close> does not look at
  \<open>game_over\<close>. In the session below the word \<open>A\<close> is won with 6 attempts and score 65; the
  new letter \<open>Z\<close> is still appended, costs an attempt, and the score becomes 55.
\<close>

theorem guess_after_game_over_counterexample:
  "(let g = run [NewGame \<lparr>cached = \<lambda>_. Some ''fact'', create = \<lambda>_ _. Inr ''fact''\<rparr> ''A'',
                InRound (Guess ''A'')] initial_game;
        g' = check_guess ''Z'' g
    in game_over g \<and> attempts g = 6 \<and> score g = 65 \<and> g' \<noteq> g \<and>
       guessed_letters g' = [''A'', ''Z''] \<and> attempts g' = 5 \<and> score g' = 55)"
  by (simp add: game_eval)

subsection \<open>Buying a hint\<close>

text \<open>
  C5. The hint section does nothing when the round is over or a hint was used, and
  nothing when the button is not clicked. Otherwise a click with at most 2 attempts
  only shows the warning and leaves the game as it is; a click with more than 2
  attempts takes exactly 2 attempts and sets \<open>hint_used\<close>. After such a purchase, whatever
  guesses and hint sections follow in the round, a further hint section changes
  nothing: attempts are taken for a hint at most once per round.
\<close>

theorem hint_purchase:
  "(game_over g \<or> hint_used g \<longrightarrow> show_hint_section svc clicked g = (g, [])) \<and>
   show_hint_section svc False g = (g, []) \<and>
   (\<not> game_over g \<and> \<not> hint_used g \<and> attempts g \<le> 2 \<longrightarrow>
      show_hint_section svc True g = (g, [StWarning ''Not enough attempts for a hint!''])) \<and>
   (\<not> game_over g \<and> \<not> hint_used g \<and> 2 < attempts g \<longrightarrow>
      fst (show_hint_section svc True g) = g\<lparr>attempts := attempts g - 2, hint_used := True\<rparr> \<and>
      show_hint_section svc' clicked' (run_round as (fst (show_hint_section svc True g))) =
        (run_round as (fst (show_hint_section svc True g)), []))"
proof -
  have used: "hint_used h \<Longrightarrow> show_hint_section svc' clicked' h = (h, [])" for h
    by (simp add: show_hint_section_def)
  have bought: "\<not> game_over g \<and> \<not> hint_used g \<and> 2 < attempts g \<Longrightarrow>
      fst (show_hint_section svc True g) = g\<lparr>attempts := attempts g - 2, hint_used := True\<rparr>"
    by (simp add: show_hint_section_def Let_def split: prod.splits)
  have again: "\<not> game_over g \<and> \<not> hint_used g \<and> 2 < attempts g \<Longrightarrow>
      show_hint_section svc' clicked' (run_round as (fst (show_hint_section svc True g))) =
        (run_round as (fst (show_hint_section svc True g)), [])"
    using bought by (simp add: used hint_used_run_round)
  show ?thesis
    using bought again by (auto simp add: show_hint_section_def)
qed

theorem hint_purchase_witness:
  "(let svc = \<lparr>cached = \<lambda>_. Some ''It purrs.'', create = \<lambda>_ _. Inr ''It purrs.''\<rparr>;
        g = initial_game\<lparr>word := ''CAT''\<rparr>
    in \<not> game_over g \<and> \<not> hint_used g \<and> 2 < attempts g \<and>
       show_hint_section svc True g =
         (g\<lparr>attempts := 4, hint_used := True\<rparr>, [StInfo ''Hint: It purrs.'']) \<and>
       show_hint_section svc True (run_round [Guess ''C''] (fst (show_hint_section svc True g))) =
         (run_round [Guess ''C''] (fst (show_hint_section svc True g)), []) \<and>
       attempts (run_round [Guess ''C''] (fst (show_hint_section svc True g))) = 4) \<and>
   (let svc = \<lparr>cached = \<lambda>_. Some ''It purrs.'', create = \<lambda>_ _. Inr ''It purrs.''\<rparr>;
        g = initial_game\<lparr>word := ''CAT'', attempts := 2\<rparr>
    in \<not> game_over g \<and> \<not> hint_used g \<and> attempts g \<le> 2 \<and>
       show_hint_section svc True g = (g, [StWarning ''Not enough attempts for a hint!''])) \<and>
   (let svc = \<lparr>cached = \<lambda>_. Some ''It purrs.'', create = \<lambda>_ _. Inr ''It purrs.''\<rparr>;
        g = initial_game\<lparr>word := ''CAT'', game_over := True\<rparr>
    in game_over g \<and> show_hint_section svc True g = (g, []))"
  using
    hint_purchase
      [of "initial_game\<lparr>word := ''CAT''\<rparr>"
          "\<lparr>cached = \<lambda>_. Some ''It purrs.'', create = \<lambda>_ _. Inr ''It purrs.''\<rparr>" True
          "\<lparr>cached = \<lambda>_. Some ''It purrs.'', create = \<lambda>_ _. Inr ''It purrs.''\<rparr>" True
          "[Guess ''C'']"]
    hint_purchase
      [of "initial_game\<lparr>word := ''CAT'', attempts := 2\<rparr>"
          "\<lparr>cached = \<lambda>_. Some ''It purrs.'', create = \<lambda>_ _. Inr ''It purrs.''\<rparr>" True
          "\<lparr>cached = \<lambda>_. Some ''It purrs.'', create = \<lambda>_ _. Inr ''It purrs.''\<rparr>" True "[]"]
    hint_purchase
      [of "initial_game\<lparr>word := ''CAT'', game_over := True\<rparr>"
          "\<lparr>cached = \<lambda>_. Some ''It purrs.'', create = \<lambda>_ _. Inr ''It purrs.''\<rparr>" True
          "\<lparr>cached = \<lambda>_. Some ''It purrs.'', create = \<lambda>_ _. Inr ''It purrs.''\<rparr>" True "[]"]
  by (simp add: game_eval)

subsection \<open>Attempts never grow within a round\<close>

text \<open>
  C6. Over any sequence of guesses and hint sections, \<open>attempts\<close> after a longer part of
  the sequence is at most \<open>attempts\<close> after a shorter part of it: no operation of a round
  adds an attempt.
\<close>

theorem attempts_non_increasing:
  "attempts (run_round (as @ bs) g) \<le> attempts (run_round as g)"
  by (simp add: run_round_append run_round_attempts_le)

subsection \<open>A letter guessed twice\<close>

text \<open>
  C7. For every game and every letter that is already in \<open>guessed_letters\<close>,
  \<open>check_guess\<close> with that letter leaves \<open>attempts\<close> and \<open>guessed_letters\<close> unchanged.
\<close>

theorem known_letter_unchanged:
  "letter \<in> set (guessed_letters g) \<Longrightarrow>
   attempts (check_guess letter g) = attempts g \<and>
   guessed_letters (check_guess letter g) = guessed_letters g"
  by (simp add: check_guess_def Let_def)

theorem known_letter_unchanged_witness:
  "''C'' \<in> set (guessed_letters (initial_game\<lparr>word := ''CAT'', guessed_letters := [''X'', ''C'']\<rparr>)) \<and>
   attempts (check_guess ''C'' (initial_game\<lparr>word := ''CAT'', guessed_letters := [''X'', ''C'']\<rparr>)) = 6 \<and>
   guessed_letters (check_guess ''C'' (initial_game\<lparr>word := ''CAT'', guessed_letters := [''X'', ''C'']\<rparr>))
     = [''X'', ''C'']"
  using known_letter_unchanged [of "''C''" "initial_game\<lparr>word := ''CAT'', guessed_letters := [''X'', ''C'']\<rparr>"]
  by (simp add: initial_game_def)

subsection \<open>The retries of the hint provider\<close>

text \<open>
  C8. \<open>get_ai_content\<close> sends at most \<open>max_retries\<close> requests, which is 3 for the hint
  and for the fun fact. When the body runs and every request fails, each failure is
  followed by a pause of 2 seconds and the result is the fixed fallback text. When the
  request number \<open>i\<close> is the first to succeed, the \<open>i\<close> failures before it are each
  followed by the pause, and the result is the stripped answer. In every case the
  function returns a text: what the request raises is caught.
\<close>

theorem hint_provider_retries:
  "requests (snd (get_ai_content svc prompt m)) \<le> nat m \<and>
   requests (snd (get_ai_hint svc g)) \<le> 3 \<and>
   requests (snd (get_fun_fact svc g)) \<le> 3 \<and>
   (cached svc (prompt, m) = None \<and>
    (\<forall>k<nat m. create svc prompt k = Inl (Exception (msg k))) \<longrightarrow>
      get_ai_content svc prompt m =
        (fallback, concat (map (\<lambda>k. failed_attempt prompt (msg k)) [0..<nat m]))) \<and>
   (cached svc (prompt, m) = None \<and> i < nat m \<and>
    (\<forall>k<i. create svc prompt k = Inl (Exception (msg k))) \<and>
    create svc prompt i = Inr content \<longrightarrow>
      get_ai_content svc prompt m =
        (strip content,
         concat (map (\<lambda>k. failed_attempt prompt (msg k)) [0..<i]) @ [Request prompt]))"
proof -
  have hint: "requests (snd (get_ai_hint svc g)) \<le> 3"
    using get_ai_content_requests [of svc _ 3] by (simp add: get_ai_hint_def)
  have fact: "requests (snd (get_fun_fact svc g)) \<le> 3"
    using get_ai_content_requests [of svc _ 3] by (simp add: get_fun_fact_def)
  have exhausted: "get_ai_content svc prompt m =
        (fallback, concat (map (\<lambda>k. failed_attempt prompt (msg k)) [0..<nat m]))"
    if "cached svc (prompt, m) = None"
      and "\<forall>k<nat m. create svc prompt k = Inl (Exception (msg k))"
    using that retry_loop_exhausted [of "nat m" "create svc prompt" 0 msg prompt]
    by (simp add: get_ai_content_def)
  have success: "get_ai_content svc prompt m =
        (strip content,
         concat (map (\<lambda>k. failed_attempt prompt (msg k)) [0..<i]) @ [Request prompt])"
    if "cached svc (prompt, m) = None" and "i < nat m"
      and "\<forall>k<i. create svc prompt k = Inl (Exception (msg k))"
      and "create svc prompt i = Inr content"
    using that retry_loop_success [of i "nat m" "create svc prompt" 0 msg content prompt]
    by (simp add: get_ai_content_def)
  show ?thesis
    using get_ai_content_requests [of svc prompt m] hint fact exhausted success by blast
qed

theorem hint_provider_retries_witness:
  "get_ai_content \<lparr>cached = \<lambda>_. None, create = \<lambda>_ _. Inl (Exception ''offline'')\<rparr> ''Say hi'' 3 =
     (''Temporary hint unavailable. Try guessing letters!'',
      [Request ''Say hi'', StError ''AI service error: offline'', Sleep 2,
       Request ''Say hi'', StError ''AI service error: offline'', Sleep 2,
       Request ''Say hi'', StError ''AI service error: offline'', Sleep 2]) \<and>
   get_ai_content
     \<lparr>cached = \<lambda>_. None,
      create = \<lambda>_ k. if k = 0 then Inl (Exception ''busy'') else Inr '' A pet. ''\<rparr> ''Say hi'' 3 =
     (''A pet.'', [Request ''Say hi'', StError ''AI service error: busy'', Sleep 2, Request ''Say hi''])"
  using
    hint_provider_retries
      [of "\<lparr>cached = \<lambda>_. None, create = \<lambda>_ _. Inl (Exception ''offline'')\<rparr>" "''Say hi''" 3
          initial_game "\<lambda>_. ''offline''" 0 "''''"]
    hint_provider_retries
      [of "\<lparr>cached = \<lambda>_. None,
            create = \<lambda>_ k. if k = 0 then Inl (Exception ''busy'') else Inr '' A pet. ''\<rparr>"
          "''Say hi''" 3 initial_game "\<lambda>_. ''busy''" 1 "'' A pet. ''"]
  by (simp add: failed_attempt_def fallback_def strip_def is_space_def upt_conv_Cons numeral_3_eq_3)

subsection \<open>No letter is recorded twice\<close>

text \<open>
  C9. If \<open>guessed_letters\<close> has no duplicates, it has none after any sequence of
  operations of a session, guesses in particular: the list stands for a set.
\<close>

theorem guessed_letters_distinct:
  "distinct (guessed_letters g) \<Longrightarrow> distinct (guessed_letters (run acts g))"
  by (induction acts arbitrary: g) (simp_all add: distinct_step)

theorem guessed_letters_distinct_witness:
  "distinct (guessed_letters initial_game) \<and>
   guessed_letters (run [InRound (Guess ''A''), InRound (Guess ''B''), InRound (Guess ''A'')] initial_game)
     = [''A'', ''B''] \<and>
   distinct (guessed_letters
     (run [InRound (Guess ''A''), InRound (Guess ''B''), InRound (Guess ''A'')] initial_game))"
  using guessed_letters_distinct
    [of initial_game "[InRound (Guess ''A''), InRound (Guess ''B''), InRound (Guess ''A'')]"]
  by (simp add: game_eval)

subsection \<open>A failed leaderboard read\<close>

text \<open>
  C10. For every limit, when the body of \<open>get_leaderboard\<close> runs and the read raises,
  the function returns the empty list, which is also what it returns when the store
  has no scores.
\<close>

theorem leaderboard_read_failure:
  assumes "lb_cached store limit = None" and "stream store limit = Inl e"
  shows "fst (get_leaderboard store limit) = [] \<and>
         fst (get_leaderboard store limit) =
           fst (get_leaderboard (store\<lparr>stream := \<lambda>_. Inr []\<rparr>) limit)"
  using assms by (cases e) (simp add: get_leaderboard_def)

theorem leaderboard_read_failure_witness:
  "fst (get_leaderboard \<lparr>lb_cached = \<lambda>_. None, stream = \<lambda>_. Inl (Exception ''unavailable'')\<rparr> 10) = [] \<and>
   get_leaderboard \<lparr>lb_cached = \<lambda>_. None, stream = \<lambda>_. Inl (Exception ''unavailable'')\<rparr> 10
     = ([], [StError ''Leaderboard error: unavailable''])"
  using leaderboard_read_failure
    [of "\<lparr>lb_cached = \<lambda>_. None, stream = \<lambda>_. Inl (Exception ''unavailable'')\<rparr>" 10
        "Exception ''unavailable''"]
  by (simp add: get_leaderboard_def)

end
